theory Spec2Isabelle
  imports
    Main
    "HOL-Library.Signed_Division"
    "HOL-Library.Char_ord"
    "HOL-Library.List_Lexorder"
    "HOL-Library.Word"
begin

chapter \<open>A shallow embedding of the goflow engine core\<close>

text \<open>
  Go strings are byte sequences and are modelled as \<open>string\<close> (a list of 8-bit characters).
  Go's \<open>int\<close> is modelled as \<open>int\<close>: the arithmetic of the functions below (comparison
  with a slice length, one addition of a slice length to a negative index, division of a
  status code by 100) cannot overflow. A Go panic is a value of its own (\<open>Panicked\<close>),
  never an unspecified result.
\<close>

section \<open>Go standard library functions used by the sources\<close>

text \<open>\<open>strings.Trim(s, cutset)\<close>: all leading and trailing characters of the cutset removed.\<close>

definition Trim :: "string \<Rightarrow> string \<Rightarrow> string" where
  "Trim s cutset =
     rev (dropWhile (\<lambda>c. c \<in> set cutset) (rev (dropWhile (\<lambda>c. c \<in> set cutset) s)))"

text \<open>\<open>strings.Join(elems, sep)\<close>.\<close>

definition Join :: "string list \<Rightarrow> string \<Rightarrow> string" where
  "Join elems sep =
     (case elems of
        [] \<Rightarrow> []
      | e # es \<Rightarrow> foldl (\<lambda>acc x. acc @ sep @ x) e es)"

text \<open>\<open>strings.ToLower\<close> on ASCII letters (URN schemes are ASCII).\<close>

definition ToLower :: "string \<Rightarrow> string" where
  "ToLower s =
     map (\<lambda>c. if CHR ''A'' \<le> c \<and> c \<le> CHR ''Z'' then char_of (of_char c + (32::nat)) else c) s"

text \<open>
  \<open>strconv.Atoi\<close>: an optional sign, then one or more decimal digits; the value must fit
  a 64-bit signed integer. Every other input is an error (\<open>None\<close>).
\<close>

definition isDigit :: "char \<Rightarrow> bool" where
  "isDigit c = (c \<in> set ''0123456789'')"

definition digitVal :: "char \<Rightarrow> int" where
  "digitVal c = int (of_char c) - 48"

definition parseInt :: "string \<Rightarrow> int option" where
  "parseInt s =
     (let neg = (s \<noteq> [] \<and> hd s = CHR ''-'');
          ds = (if s \<noteq> [] \<and> (hd s = CHR ''-'' \<or> hd s = CHR ''+'') then tl s else s)
      in if ds = [] \<or> \<not> list_all isDigit ds then None
         else (let n = foldl (\<lambda>a c. a * 10 + digitVal c) 0 ds
               in Some (if neg then - n else n)))"

definition Atoi :: "string \<Rightarrow> int option" where
  "Atoi s =
     (case parseInt s of
        None \<Rightarrow> None
      | Some v \<Rightarrow> if v < - (2 ^ 63) \<or> 2 ^ 63 - 1 < v then None else Some v)"

text \<open>Go slicing \<open>s[lo:hi]\<close> for \<open>0 \<le> lo \<le> hi \<le> len(s)\<close>.\<close>

definition slice :: "string \<Rightarrow> int \<Rightarrow> int \<Rightarrow> string" where
  "slice s lo hi = take (nat (hi - lo)) (drop (nat lo) s)"

section \<open>actions: classification of a webhook call (\<open>callStatus\<close>)\<close>

text \<open>
  \<open>flows.CallStatus\<close> is an enumeration; \<open>flows.WebhookCall\<close> carries a pointer to the
  HTTP response, which may be nil. A Go \<open>error\<close> is \<open>None\<close> when nil. \<open>/\<close> on Go
  integers truncates towards zero, which is \<open>sdiv\<close>.
\<close>

datatype CallStatus =
    CallStatusSuccess
  | CallStatusConnectionError
  | CallStatusResponseError
  | CallStatusSubscriberGone

record http_Response =
  StatusCode :: int

record WebhookCall =
  Response :: "http_Response option"

definition StatusGone :: int where
  "StatusGone = 410"

definition callStatus :: "WebhookCall \<Rightarrow> string option \<Rightarrow> bool \<Rightarrow> CallStatus" where
  "callStatus call err isResthook =
     (case Response call of
        None \<Rightarrow> CallStatusConnectionError
      | Some resp \<Rightarrow>
          if err \<noteq> None then CallStatusConnectionError
          else if isResthook \<and> StatusCode resp = StatusGone then CallStatusSubscriberGone
          else if StatusCode resp sdiv 100 = 2 then CallStatusSuccess
          else CallStatusResponseError)"

section \<open>modifiers: the name modifier (\<open>NameModifier.Apply\<close>)\<close>

text \<open>
  The contact is passed by pointer and mutated; the event callback \<open>log\<close> appends to the
  event log. Both are threaded through \<open>Apply\<close>, which returns the \<open>changed\<close> flag with the
  contact and the log after the call. The services and session assets are not used by
  this modifier.
\<close>

record Environment =
  MaxValueLength :: nat

record Contact =
  Contact_name :: string

datatype Event = ContactNameChanged string

record NameModifier =
  Name :: string

text \<open>
  Modelled from the spec: \<open>utils.Truncate\<close> is not among the source files. The spec
  (section 4.4) speaks of the environment-level value-length truncation applied before
  text is stored: a text longer than the limit is cut to its first \<open>limit\<close> characters, a
  text within the limit is kept as it is.
\<close>

definition Truncate :: "string \<Rightarrow> nat \<Rightarrow> string" where
  "Truncate s limit = (if length s \<le> limit then s else take limit s)"

definition Apply ::
  "NameModifier \<Rightarrow> Environment \<Rightarrow> Contact \<Rightarrow> Event list \<Rightarrow> bool \<times> Contact \<times> Event list" where
  "Apply m env contact log =
     (if Contact_name contact \<noteq> Name m then
        (let name = Truncate (Name m) (MaxValueLength env) in
           (True, contact\<lparr>Contact_name := name\<rparr>, log @ [ContactNameChanged name]))
      else (False, contact, log))"

text \<open>
  Two applications in a row of the same modifier: the second is applied to the contact
  the first one left; each reports its flag, the contact and the events it emitted.
\<close>

definition Apply_twice ::
  "NameModifier \<Rightarrow> Environment \<Rightarrow> Contact \<Rightarrow>
     (bool \<times> Contact \<times> Event list) \<times> (bool \<times> Contact \<times> Event list)" where
  "Apply_twice m env contact =
     (let first = Apply m env contact [];
          second = Apply m env (fst (snd first)) []
      in (first, second))"

section \<open>flows: contact URNs and URN lists\<close>

text \<open>
  \<open>urns.URN\<close> is given by the parts its accessors return. A \<open>ContactURN\<close> holds the URN
  and the channel; the channel is an interface value, so the type of channels is a
  parameter. A \<open>URNList\<close> is a slice of (non-nil) pointers to contact URNs.
\<close>

datatype urn = URN (Scheme: string) (Path: string) (Query: string) (Display: string)

datatype 'c ContactURN = ContactURN (URN_of: urn) (channel: 'c)

text \<open>
  \<open>WithScheme\<close> ranges over the receiver and appends the matching URNs to a fresh slice.
  The variables of the loop are kept in a record, so that what the loop does to the
  receiver is visible in what it returns: the result and the receiver after the call.
\<close>

record 'c WithScheme_vars =
  source :: "'c ContactURN list"
  matching :: "'c ContactURN list"

function WithScheme_loop :: "string \<Rightarrow> nat \<Rightarrow> 'c WithScheme_vars \<Rightarrow> 'c WithScheme_vars" where
  "WithScheme_loop scheme i vars =
     (if i < length (source vars) then
        (let u = source vars ! i in
           WithScheme_loop scheme (Suc i)
             (if Scheme (URN_of u) = scheme
              then vars\<lparr>matching := matching vars @ [u]\<rparr>
              else vars))
      else vars)"
  by pat_completeness auto
termination
  by (relation "measure (\<lambda>(scheme, i, vars). length (source vars) - i)") auto

declare WithScheme_loop.simps [simp del]

definition WithScheme :: "'c ContactURN list \<Rightarrow> string \<Rightarrow> 'c ContactURN list \<times> 'c ContactURN list" where
  "WithScheme l scheme =
     (let vars = WithScheme_loop scheme 0 \<lparr>source = l, matching = []\<rparr>
      in (matching vars, source vars))"

section \<open>utils: values of the context and their capabilities\<close>

text \<open>
  \<open>ResolveVariable\<close> works on \<open>interface{}\<close> values. The model has one constructor for
  each kind of value the sources put into the context: nil (an untyped nil or a typed nil
  pointer), the atoms of \<open>ToXAtom\<close>, the array, the map resolver, contact URNs and URN
  lists, and \<open>IOther t a\<close> for a value of any other type named \<open>t\<close>, which is neither
  indexable nor resolvable and is atomizable when \<open>a\<close> holds. Errors built with
  \<open>fmt.Errorf\<close> are kept as the format together with its arguments.
\<close>

datatype err =
    CantResolveNil string
  | IndexOutOfRange int int
  | NoKeyInMap string
  | NoFieldOnURN string
  | UnknownURNScheme string
  | CantResolveType string string
  | UnknownType string
  | ErrorMessage string

datatype ival =
    INil
  | IError err
  | IString string
  | IDecimal int int
  | IInt int
  | ITime int
  | IBool bool
  | IArray "ival list"
  | IMapResolver "(string \<times> ival) list"
  | IContactURN "ival ContactURN"
  | IURNList "ival ContactURN list"
  | IOther string bool

text \<open>
  A panic of the Go runtime or of the code: the explicit panic of \<open>ResolveVariable\<close>
  (key and type), and the runtime's index-out-of-range panic (index and length).
\<close>

datatype panic = UnsupportedType string string | RuntimeIndexOutOfRange int int

datatype outcome = Returned ival | Panicked panic

definition IsNil :: "ival \<Rightarrow> bool" where
  "IsNil v = (v = INil)"

subsection \<open>Indexable: \<open>xarray\<close> and \<open>URNList\<close>\<close>

text \<open>
  \<open>Index\<close> reads the slice at the index it is given, with no check of its own: outside
  \<open>0 \<le> index < len\<close> the Go runtime panics.
\<close>

definition xarray_Length :: "ival list \<Rightarrow> int" where
  "xarray_Length values = int (length values)"

definition xarray_Index :: "ival list \<Rightarrow> int \<Rightarrow> panic + ival" where
  "xarray_Index values index =
     (if 0 \<le> index \<and> index < int (length values) then Inr (values ! nat index)
      else Inl (RuntimeIndexOutOfRange index (int (length values))))"

definition URNList_Length :: "ival ContactURN list \<Rightarrow> int" where
  "URNList_Length l = int (length l)"

definition URNList_Index :: "ival ContactURN list \<Rightarrow> int \<Rightarrow> panic + ival" where
  "URNList_Index l index =
     (if 0 \<le> index \<and> index < int (length l) then Inr (IContactURN (l ! nat index))
      else Inl (RuntimeIndexOutOfRange index (int (length l))))"

text \<open>The type assertion \<open>variable.(Indexable)\<close>: the methods of the value, when it has them.\<close>

record Indexable =
  Length :: int
  Index :: "int \<Rightarrow> panic + ival"

definition asIndexable :: "ival \<Rightarrow> Indexable option" where
  "asIndexable v =
     (case v of
        IArray values \<Rightarrow> Some \<lparr>Length = xarray_Length values, Index = xarray_Index values\<rparr>
      | IURNList l \<Rightarrow> Some \<lparr>Length = URNList_Length l, Index = URNList_Index l\<rparr>
      | _ \<Rightarrow> None)"

subsection \<open>Resolvable: \<open>mapResolver\<close>, \<open>ContactURN\<close> and \<open>URNList\<close>\<close>

definition mapResolver_Resolve :: "(string \<times> ival) list \<Rightarrow> string \<Rightarrow> ival" where
  "mapResolver_Resolve values key =
     (case map_of values key of
        None \<Rightarrow> IError (NoKeyInMap key)
      | Some val \<Rightarrow> val)"

definition ContactURN_Resolve :: "ival ContactURN \<Rightarrow> string \<Rightarrow> ival" where
  "ContactURN_Resolve u key =
     (if key = ''scheme'' then IString (Scheme (URN_of u))
      else if key = ''path'' then IString (Path (URN_of u))
      else if key = ''display'' then IString (Display (URN_of u))
      else if key = ''channel'' then channel u
      else IError (NoFieldOnURN key))"

text \<open>\<open>urns.IsValidScheme\<close> belongs to another module and is a parameter.\<close>

definition URNList_Resolve :: "(string \<Rightarrow> bool) \<Rightarrow> ival ContactURN list \<Rightarrow> string \<Rightarrow> ival" where
  "URNList_Resolve IsValidScheme l key =
     (let scheme = ToLower key in
        if \<not> IsValidScheme scheme then IError (UnknownURNScheme key)
        else IURNList (fst (WithScheme l scheme)))"

definition asResolvable :: "(string \<Rightarrow> bool) \<Rightarrow> ival \<Rightarrow> (string \<Rightarrow> ival) option" where
  "asResolvable IsValidScheme v =
     (case v of
        IMapResolver values \<Rightarrow> Some (mapResolver_Resolve values)
      | IContactURN u \<Rightarrow> Some (ContactURN_Resolve u)
      | IURNList l \<Rightarrow> Some (URNList_Resolve IsValidScheme l)
      | _ \<Rightarrow> None)"

subsection \<open>Atomizable, type names and \<open>ToXAtom\<close>\<close>

definition isAtomizable :: "ival \<Rightarrow> bool" where
  "isAtomizable v =
     (case v of
        IMapResolver values \<Rightarrow> True
      | IContactURN u \<Rightarrow> True
      | IURNList l \<Rightarrow> True
      | IOther t atomizable \<Rightarrow> atomizable
      | _ \<Rightarrow> False)"

definition TypeOf :: "ival \<Rightarrow> string" where
  "TypeOf v =
     (case v of
        INil \<Rightarrow> ''<nil>''
      | IError e \<Rightarrow> ''*errors.errorString''
      | IString s \<Rightarrow> ''string''
      | IDecimal m e \<Rightarrow> ''decimal.Decimal''
      | IInt i \<Rightarrow> ''int''
      | ITime t \<Rightarrow> ''time.Time''
      | IBool b \<Rightarrow> ''bool''
      | IArray values \<Rightarrow> ''utils.Array''
      | IMapResolver values \<Rightarrow> ''*utils.mapResolver''
      | IContactURN u \<Rightarrow> ''*flows.ContactURN''
      | IURNList l \<Rightarrow> ''flows.URNList''
      | IOther t atomizable \<Rightarrow> t)"

datatype XType =
  XTypeNil | XTypeError | XTypeString | XTypeDecimal | XTypeTime | XTypeBool | XTypeArray

definition ToXAtom :: "ival \<Rightarrow> ival \<times> XType \<times> err option" where
  "ToXAtom val =
     (case val of
        INil \<Rightarrow> (val, XTypeNil, None)
      | IError e \<Rightarrow> (val, XTypeError, None)
      | IString s \<Rightarrow> (val, XTypeString, None)
      | IDecimal m e \<Rightarrow> (val, XTypeDecimal, None)
      | IInt i \<Rightarrow> (IDecimal i 0, XTypeDecimal, None)
      | ITime t \<Rightarrow> (val, XTypeTime, None)
      | IBool b \<Rightarrow> (val, XTypeBool, None)
      | IArray values \<Rightarrow> (val, XTypeArray, None)
      | _ \<Rightarrow> (val, XTypeNil, Some (UnknownType (TypeOf val))))"

section \<open>utils: splitting a path (\<open>popNextVariable\<close>)\<close>

text \<open>
  The three variables of \<open>popNextVariable\<close> and its loop over the characters of the input,
  \<open>i\<close> being the index of the character \<open>c\<close>. The loop stops at the first \<open>break\<close>. The
  characters compared are ASCII, so ranging over bytes and over runes visit them alike.
\<close>

record popVars =
  keyStart :: int
  keyEnd :: int
  restStart :: int

fun popNextVariable_loop :: "int \<Rightarrow> string \<Rightarrow> popVars \<Rightarrow> popVars" where
  "popNextVariable_loop i [] v = v"
| "popNextVariable_loop i (c # cs) v =
     (if i = 0 \<and> c = CHR ''['' then
        popNextVariable_loop (i + 1) cs (v\<lparr>keyStart := keyStart v + 1\<rparr>)
      else if c = CHR ''['' then v\<lparr>keyEnd := i, restStart := i\<rparr>
      else if c = CHR '']'' then v\<lparr>keyEnd := i, restStart := i + 1\<rparr>
      else if c = CHR ''.'' then v\<lparr>keyEnd := i, restStart := i + 1\<rparr>
      else popNextVariable_loop (i + 1) cs v)"

definition popNextVariable :: "string \<Rightarrow> string \<times> string" where
  "popNextVariable input =
     (let v = popNextVariable_loop 0 input \<lparr>keyStart = 0, keyEnd = - 1, restStart = - 1\<rparr>
      in if keyEnd v = - 1 then (input, [])
         else (Trim (slice input (keyStart v) (keyEnd v)) [CHR 0x22],
               drop (nat (restStart v)) input))"

text \<open>The characters at which the loop of \<open>popNextVariable\<close> stops.\<close>

definition special :: "char \<Rightarrow> bool" where
  "special c = (c = CHR ''['' \<or> c = CHR '']'' \<or> c = CHR ''.'')"

subsection \<open>What \<open>popNextVariable\<close> computes, and that the rest gets shorter\<close>

lemma popNextVariable_loop_pos:
  "0 < i \<Longrightarrow> popNextVariable_loop i cs v =
     (let j = length (takeWhile (\<lambda>c. \<not> special c) cs) in
        if j = length cs then v
        else v\<lparr>keyEnd := i + int j,
               restStart := i + int j + (if cs ! j = CHR ''['' then 0 else 1)\<rparr>)"
proof (induction cs arbitrary: i)
  case Nil
  then show ?case by simp
next
  case (Cons c cs)
  show ?case
  proof (cases "special c")
    case True
    then show ?thesis using Cons.prems by (auto simp: special_def)
  next
    case False
    then have "popNextVariable_loop i (c # cs) v = popNextVariable_loop (i + 1) cs v"
      using Cons.prems by (simp add: special_def)
    also have "\<dots> = (let j = length (takeWhile (\<lambda>c. \<not> special c) cs) in
        if j = length cs then v
        else v\<lparr>keyEnd := i + 1 + int j,
               restStart := i + 1 + int j + (if cs ! j = CHR ''['' then 0 else 1)\<rparr>)"
      using Cons.IH [of "i + 1"] Cons.prems by simp
    finally show ?thesis using False by (simp add: Let_def add.assoc)
  qed
qed

lemma takeWhile_length_eq: "length (takeWhile P xs) = length xs \<longleftrightarrow> takeWhile P xs = xs"
  by (metis length_takeWhile_le takeWhile_eq_take take_all_iff order_refl)

lemma popNextVariable_bracket:
  "popNextVariable (CHR ''['' # cs) =
     (let seg = takeWhile (\<lambda>c. \<not> special c) cs in
        if seg = cs then (CHR ''['' # cs, [])
        else (Trim seg [CHR 0x22],
              drop (length seg + (if cs ! length seg = CHR ''['' then 0 else 1)) cs))"
  by (simp add: popNextVariable_def popNextVariable_loop_pos Let_def slice_def
      takeWhile_length_eq takeWhile_eq_take [symmetric] nat_add_distrib)

lemma popNextVariable_plain:
  assumes "input = [] \<or> hd input \<noteq> CHR ''[''"
  shows "popNextVariable input =
     (let seg = takeWhile (\<lambda>c. \<not> special c) input in
        if seg = input then (input, [])
        else (Trim seg [CHR 0x22],
              drop (length seg + (if input ! length seg = CHR ''['' then 0 else 1)) input))"
proof (cases input)
  case Nil
  then show ?thesis by (simp add: popNextVariable_def)
next
  case (Cons c cs)
  with assms have c: "c \<noteq> CHR ''[''" by simp
  show ?thesis
  proof (cases "special c")
    case True
    then show ?thesis using c Cons
      by (auto simp: popNextVariable_def special_def slice_def Trim_def)
  next
    case False
    then show ?thesis using c Cons
      by (simp add: popNextVariable_def popNextVariable_loop_pos Let_def slice_def
          takeWhile_length_eq takeWhile_eq_take [symmetric] nat_add_distrib special_def)
  qed
qed

lemma popNextVariable_rest_shorter:
  assumes "input \<noteq> []"
  shows "length (snd (popNextVariable input)) < length input"
proof (cases "hd input = CHR ''[''")
  case True
  then obtain cs where "input = CHR ''['' # cs" using assms by (cases input) auto
  then show ?thesis by (simp add: popNextVariable_bracket Let_def less_Suc_eq_le)
next
  case False
  then obtain c cs where i: "input = c # cs" "c \<noteq> CHR ''[''"
    using assms by (cases input) auto
  then have "popNextVariable (c # cs) =
     (let seg = takeWhile (\<lambda>c. \<not> special c) (c # cs) in
        if seg = c # cs then (c # cs, [])
        else (Trim seg [CHR 0x22],
              drop (length seg + (if (c # cs) ! length seg = CHR ''['' then 0 else 1)) (c # cs)))"
    by (intro popNextVariable_plain) simp
  then show ?thesis using i
    by (cases "special c") (simp_all add: Let_def less_Suc_eq_le)
qed

section \<open>utils: the resolver (\<open>ResolveVariable\<close>)\<close>

text \<open>
  The check at the end of \<open>ResolveVariable\<close>: a value \<open>ToXAtom\<close> does not know and that is
  not atomizable makes the function panic.
\<close>

definition checkReturn :: "ival \<Rightarrow> string \<Rightarrow> outcome" where
  "checkReturn variable key =
     (case ToXAtom variable of
        (_, _, None) \<Rightarrow> Returned variable
      | (_, _, Some err) \<Rightarrow>
          if \<not> isAtomizable variable then Panicked (UnsupportedType key (TypeOf variable))
          else Returned variable)"

text \<open>
  The body of the loop for one key: \<open>Inl\<close> is what the function returns (or the panic it
  raises) from inside the loop, \<open>Inr\<close> the new value of \<open>variable\<close> when the loop goes on.
\<close>

definition resolveStep :: "(string \<Rightarrow> bool) \<Rightarrow> ival \<Rightarrow> string \<Rightarrow> outcome + ival" where
  "resolveStep IsValidScheme variable key =
     (if IsNil variable then Inl (Returned (IError (CantResolveNil key)))
      else
        (case (Atoi key, asIndexable variable) of
           (Some index, Some indexable) \<Rightarrow>
             if index \<ge> Length indexable \<or> index < - Length indexable
             then Inl (Returned (IError (IndexOutOfRange index (Length indexable))))
             else
               (case Index indexable (if index < 0 then index + Length indexable else index) of
                  Inl p \<Rightarrow> Inl (Panicked p)
                | Inr v \<Rightarrow> Inr v)
         | _ \<Rightarrow>
             (case asResolvable IsValidScheme variable of
                Some resolve \<Rightarrow>
                  (case resolve key of
                     IError e \<Rightarrow> Inl (Returned (IError e))
                   | v \<Rightarrow> Inr v)
              | None \<Rightarrow> Inl (Returned (IError (CantResolveType key (TypeOf variable)))))))"

text \<open>The loop \<open>for rest != ""\<close>, with the variables \<open>variable\<close>, \<open>key\<close> and \<open>rest\<close>.\<close>

function resolveLoop :: "(string \<Rightarrow> bool) \<Rightarrow> ival \<Rightarrow> string \<Rightarrow> string \<Rightarrow> outcome" where
  "resolveLoop IsValidScheme variable key rest =
     (if rest = [] then checkReturn variable key
      else
        (case resolveStep IsValidScheme variable (fst (popNextVariable rest)) of
           Inl out \<Rightarrow> out
         | Inr v \<Rightarrow>
             resolveLoop IsValidScheme v (fst (popNextVariable rest)) (snd (popNextVariable rest))))"
  by pat_completeness auto
termination
  by (relation "measure (\<lambda>(vs, variable, key, rest). length rest)")
     (simp_all add: popNextVariable_rest_shorter case_prod_unfold)

declare resolveLoop.simps [simp del]

definition ResolveVariable :: "(string \<Rightarrow> bool) \<Rightarrow> ival \<Rightarrow> string \<Rightarrow> outcome" where
  "ResolveVariable IsValidScheme variable key =
     (case variable of
        IError err \<Rightarrow> Returned (IError err)
      | _ \<Rightarrow>
          if key = [] then Returned variable
          else
            (let key = (if hd key = CHR ''.'' then tl key else key)
             in resolveLoop IsValidScheme variable key key))"



text \<open>The elements of an indexable value, in order.\<close>

definition elements :: "ival \<Rightarrow> ival list" where
  "elements v =
     (case v of
        IArray values \<Rightarrow> values
      | IURNList l \<Rightarrow> map IContactURN l
      | _ \<Rightarrow> [])"

section \<open>excellent/types: numbers and dicts\<close>

text \<open>
  The decimal numbers come from the module \<open>shopspring/decimal\<close>. Its type is the
  parameter \<open>'d\<close>, and the functions of it that the sources call are the fields of a
  record: \<open>NewFromString\<close> (\<open>None\<close> when it returns an error), \<open>Zero\<close>, \<open>IntPart\<close>
  (an \<open>int64\<close>) and the method \<open>String\<close>.
\<close>

record 'd decimal_lib =
  NewFromString :: "string \<Rightarrow> 'd option"
  Zero :: 'd
  IntPart :: "'d \<Rightarrow> 64 word"
  String :: "'d \<Rightarrow> string"

text \<open>
  An \<open>XError\<close> made by \<open>NewXErrorf\<close> is kept as its format with the value it describes.
  \<open>XNil\<close> is a nil \<open>XValue\<close>. A dict holds a Go map, whose keys are unique: it is an
  association list in the order in which the map happens to be ranged over.
\<close>

datatype 'v XErrorOf =
    UnableToConvertToNumber 'v
  | NumberOutOfRange 'v
  | ResolveError 'v string
  | XErrorMessage string

datatype 'd XValue =
    XNil
  | XError "'d XValue XErrorOf"
  | XNumber 'd
  | XText string
  | XBoolean bool
  | XDateTime int
  | XArray "'d XValue list"
  | XDict "(string \<times> 'd XValue) list"

type_synonym 'd XError = "'d XValue XErrorOf"

subsection \<open>\<open>ToXNumber\<close> and \<open>ToInteger\<close>\<close>

definition XNumberZero :: "'d decimal_lib \<Rightarrow> 'd" where
  "XNumberZero dec = Zero dec"

definition XNumber_Render :: "'d decimal_lib \<Rightarrow> 'd \<Rightarrow> string" where
  "XNumber_Render dec x = String dec x"

definition ToXNumber :: "'d decimal_lib \<Rightarrow> 'd XValue \<Rightarrow> 'd \<times> 'd XError option" where
  "ToXNumber dec x =
     (case x of
        XError typed \<Rightarrow> (XNumberZero dec, Some typed)
      | XNumber typed \<Rightarrow> (typed, None)
      | XText typed \<Rightarrow>
          (case NewFromString dec typed of
             Some parsed \<Rightarrow> (parsed, None)
           | None \<Rightarrow> (XNumberZero dec, Some (UnableToConvertToNumber x)))
      | _ \<Rightarrow> (XNumberZero dec, Some (UnableToConvertToNumber x)))"

definition MinInt32 :: int where
  "MinInt32 = - (2 ^ 31)"

definition MaxInt32 :: int where
  "MaxInt32 = 2 ^ 31 - 1"

definition ToInteger :: "'d decimal_lib \<Rightarrow> 'd XValue \<Rightarrow> int \<times> 'd XError option" where
  "ToInteger dec x =
     (case ToXNumber dec x of
        (number, Some err) \<Rightarrow> (0, Some err)
      | (number, None) \<Rightarrow>
          (let intPart = sint (IntPart dec number) in
             if intPart < MinInt32 \<or> intPart > MaxInt32
             then (0, Some (NumberOutOfRange (XNumber number)))
             else (intPart, None)))"

subsection \<open>\<open>xdict.ToXText\<close>\<close>

text \<open>
  The package-level conversion \<open>ToXText\<close> and the method \<open>XError.ToXText\<close> are defined in
  other files of the package; they are the parameters \<open>ToXText\<close> and \<open>XError_ToXText\<close>.
  \<open>sort.Strings\<close> sorts by the order of Go strings, which is the lexicographic order on
  bytes. The keys are unique, so the sorted list is determined.
\<close>

definition xdict_Keys :: "(string \<times> 'd XValue) list \<Rightarrow> string list" where
  "xdict_Keys values = map fst values"

definition xdict_Length :: "(string \<times> 'd XValue) list \<Rightarrow> int" where
  "xdict_Length values = int (length values)"

definition xdict_lookup :: "(string \<times> 'd XValue) list \<Rightarrow> string \<Rightarrow> 'd XValue" where
  "xdict_lookup values k = (case map_of values k of Some v \<Rightarrow> v | None \<Rightarrow> XNil)"

definition xdict_pair ::
  "('d XValue \<Rightarrow> string \<times> 'd XError option) \<Rightarrow> ('d XError \<Rightarrow> string) \<Rightarrow>
     (string \<times> 'd XValue) list \<Rightarrow> string \<Rightarrow> string" where
  "xdict_pair ToXText XError_ToXText values k =
     (case ToXText (xdict_lookup values k) of
        (vAsText, None) \<Rightarrow> k @ '': '' @ vAsText
      | (vAsText, Some xerr) \<Rightarrow> k @ '': '' @ XError_ToXText xerr)"

definition xdict_ToXText ::
  "('d XValue \<Rightarrow> string \<times> 'd XError option) \<Rightarrow> ('d XError \<Rightarrow> string) \<Rightarrow>
     (string \<times> 'd XValue) list \<Rightarrow> string" where
  "xdict_ToXText ToXText XError_ToXText values =
     (let sortedKeys = sort (xdict_Keys values);
          pairs = foldl (\<lambda>pairs k. pairs @ [xdict_pair ToXText XError_ToXText values k])
                    [] sortedKeys
      in ''{'' @ Join pairs '', '' @ ''}'')"

subsection \<open>An instance of the decimal functions, for whole numbers\<close>

text \<open>
  Whole numbers with their decimal notation: enough of the decimal module to run the
  functions above on concrete inputs. \<open>IntPart\<close> keeps the low 64 bits.
\<close>

function showNat :: "nat \<Rightarrow> string" where
  "showNat n =
     (if n < 10 then [''0123456789'' ! n]
      else showNat (n div 10) @ [''0123456789'' ! (n mod 10)])"
  by pat_completeness auto
termination
  by (relation "measure id") auto

declare showNat.simps [simp del]

definition showInt :: "int \<Rightarrow> string" where
  "showInt i = (if i < 0 then CHR ''-'' # showNat (nat (- i)) else showNat (nat i))"

definition wholeNumbers :: "int decimal_lib" where
  "wholeNumbers =
     \<lparr>NewFromString = parseInt, Zero = 0, IntPart = word_of_int, String = showInt\<rparr>"

text \<open>
  Modelled from the spec: the package-level \<open>ToXText\<close> is not among the source files. The
  spec (sections 4.1 and 7) has every value render to its canonical text and an error
  inside a dict render in place of the entry's value. This instance renders numbers
  (by \<open>XNumber.Render\<close>) and texts, and hands an error back to the caller.
\<close>

definition simple_ToXText :: "'d decimal_lib \<Rightarrow> 'd XValue \<Rightarrow> string \<times> 'd XError option" where
  "simple_ToXText dec x =
     (case x of
        XNumber n \<Rightarrow> (XNumber_Render dec n, None)
      | XText s \<Rightarrow> (s, None)
      | XError e \<Rightarrow> ([], Some e)
      | _ \<Rightarrow> ([], None))"

chapter \<open>Properties\<close>

section \<open>Webhook classification\<close>

lemma sdiv_100_eq_2: "(k::int) sdiv 100 = 2 \<longleftrightarrow> 200 \<le> k \<and> k < 300"
proof (cases "0 \<le> k")
  case True
  then have "k sdiv 100 = k div 100"
    by (simp add: signed_divide_int_def sgn_if)
  then show ?thesis by auto
next
  case False
  then have "k sdiv 100 = - (\<bar>k\<bar> div 100)"
    by (simp add: signed_divide_int_def sgn_if)
  moreover have "0 \<le> \<bar>k\<bar> div 100" by simp
  ultimately show ?thesis using False by linarith
qed

text \<open>
  Claim C2. For every call, transport error and resthook flag, \<open>callStatus\<close> returns
  ConnectionError when the response is nil or the error is non-nil; otherwise
  SubscriberGone when in resthook mode with status 410; otherwise Success when the status
  lies in [200, 300); and ResponseError in every remaining case.
\<close>

theorem callStatus_precedence:
  "callStatus call err isResthook =
     (if Response call = None \<or> err \<noteq> None then CallStatusConnectionError
      else if isResthook \<and> StatusCode (the (Response call)) = 410 then CallStatusSubscriberGone
      else if 200 \<le> StatusCode (the (Response call)) \<and> StatusCode (the (Response call)) < 300
        then CallStatusSuccess
      else CallStatusResponseError)"
  by (cases "Response call") (simp_all add: callStatus_def StatusGone_def sdiv_100_eq_2)

theorem callStatus_precedence_witness:
  "callStatus \<lparr>Response = Some \<lparr>StatusCode = 200\<rparr>\<rparr> None False = CallStatusSuccess
   \<and> callStatus \<lparr>Response = Some \<lparr>StatusCode = 410\<rparr>\<rparr> None True = CallStatusSubscriberGone
   \<and> callStatus \<lparr>Response = Some \<lparr>StatusCode = 410\<rparr>\<rparr> None False = CallStatusResponseError
   \<and> callStatus \<lparr>Response = None\<rparr> None True = CallStatusConnectionError
   \<and> callStatus \<lparr>Response = Some \<lparr>StatusCode = 200\<rparr>\<rparr> (Some ''timeout'') False
       = CallStatusConnectionError
   \<and> callStatus \<lparr>Response = Some \<lparr>StatusCode = 500\<rparr>\<rparr> None False = CallStatusResponseError"
  using callStatus_precedence [of "\<lparr>Response = Some \<lparr>StatusCode = 200\<rparr>\<rparr>" None False]
        callStatus_precedence [of "\<lparr>Response = Some \<lparr>StatusCode = 410\<rparr>\<rparr>" None True]
        callStatus_precedence [of "\<lparr>Response = Some \<lparr>StatusCode = 410\<rparr>\<rparr>" None False]
        callStatus_precedence [of "\<lparr>Response = None\<rparr>" None True]
        callStatus_precedence [of "\<lparr>Response = Some \<lparr>StatusCode = 200\<rparr>\<rparr>" "Some ''timeout''" False]
        callStatus_precedence [of "\<lparr>Response = Some \<lparr>StatusCode = 500\<rparr>\<rparr>" None False]
  by simp

section \<open>URN lists\<close>

lemma WithScheme_loop_eq:
  "WithScheme_loop scheme i vars =
     vars\<lparr>matching := matching vars @
            filter (\<lambda>u. Scheme (URN_of u) = scheme) (drop i (source vars))\<rparr>"
proof (induction scheme i vars rule: WithScheme_loop.induct)
  case (1 scheme i vars)
  show ?case
  proof (cases "i < length (source vars)")
    case True
    then have d: "drop i (source vars) = source vars ! i # drop (Suc i) (source vars)"
      by (simp add: Cons_nth_drop_Suc)
    show ?thesis
      using True 1 by (subst WithScheme_loop.simps) (simp add: d Let_def)
  next
    case False
    then show ?thesis by (subst WithScheme_loop.simps) simp
  qed
qed

text \<open>
  Claim C9. For every URN list \<open>l\<close> and scheme \<open>s\<close>, \<open>WithScheme\<close> returns exactly the URNs
  of \<open>l\<close> whose scheme is \<open>s\<close>, in their order in \<open>l\<close> (the first component), and the
  list \<open>l\<close> is the same after the call (the second component).
\<close>

theorem WithScheme_filter:
  "WithScheme l scheme = (filter (\<lambda>u. Scheme (URN_of u) = scheme) l, l)"
  by (simp add: WithScheme_def WithScheme_loop_eq Let_def)

theorem WithScheme_filter_witness:
  "WithScheme
     [ContactURN (URN ''tel'' ''+1'' [] []) (), ContactURN (URN ''mailto'' ''x'' [] []) (),
      ContactURN (URN ''tel'' ''+2'' [] []) ()] ''tel''
   = ([ContactURN (URN ''tel'' ''+1'' [] []) (), ContactURN (URN ''tel'' ''+2'' [] []) ()],
      [ContactURN (URN ''tel'' ''+1'' [] []) (), ContactURN (URN ''mailto'' ''x'' [] []) (),
       ContactURN (URN ''tel'' ''+2'' [] []) ()])"
  using WithScheme_filter
    [of "[ContactURN (URN ''tel'' ''+1'' [] []) (), ContactURN (URN ''mailto'' ''x'' [] []) (),
          ContactURN (URN ''tel'' ''+2'' [] []) ()]" "''tel''"]
  by simp

section \<open>The name modifier\<close>

lemma Apply_second_changed_iff:
  assumes "fst (Apply m env contact log)"
  shows "fst (Apply m env (fst (snd (Apply m env contact log))) log') \<longleftrightarrow>
           MaxValueLength env < length (Name m)"
  using assms by (auto simp: Apply_def Let_def Truncate_def split: if_splits)

lemma Apply_idempotent_if_fits:
  assumes "length (Name m) \<le> MaxValueLength env"
  shows "Apply m env (fst (snd (Apply m env contact log))) log'
           = (False, fst (snd (Apply m env contact log)), log')"
  using assms by (auto simp: Apply_def Let_def Truncate_def split: if_splits)

text \<open>
  Claim C1. Applying a name modifier twice in a row: the claim is that the second
  application reports no change and emits no event. With a name of six characters and a
  maximum value length of three, the first application stores the truncated name and
  emits one event, and the second application, which compares the stored name with the
  untruncated name of the modifier, again reports a change and again emits an event.
\<close>

theorem Apply_twice_truncated_name:
  "Apply_twice \<lparr>Name = ''abcdef''\<rparr> \<lparr>MaxValueLength = 3\<rparr> \<lparr>Contact_name = ''''\<rparr>
     = ((True, \<lparr>Contact_name = ''abc''\<rparr>, [ContactNameChanged ''abc'']),
        (True, \<lparr>Contact_name = ''abc''\<rparr>, [ContactNameChanged ''abc'']))"
  by (simp add: Apply_twice_def Apply_def Truncate_def Let_def)

section \<open>Numbers\<close>

text \<open>
  Claim C5, as stated, has every value that is neither a number nor a parsable text fail
  with a conversion error. An error value is handed back as it is instead.
\<close>

theorem ToXNumber_error_counterexample:
  "ToXNumber wholeNumbers (XError (XErrorMessage ''boom'')) = (0, Some (XErrorMessage ''boom''))
   \<and> ToXNumber wholeNumbers (XError (XErrorMessage ''boom''))
       \<noteq> (0, Some (UnableToConvertToNumber (XError (XErrorMessage ''boom''))))"
  by (simp add: ToXNumber_def XNumberZero_def wholeNumbers_def)

text \<open>
  Claim C5, amended. \<open>ToXNumber\<close> returns a number unchanged; returns the parsed number
  for a text the decimal parser accepts; for an error value fails with that same error;
  and for every other value (nil, a text the parser rejects, a boolean, a datetime, an
  array, a dict) fails with the conversion error for that value. Whenever it fails, the
  number returned with the error is zero.
\<close>

theorem ToXNumber_cases:
  "ToXNumber dec (XNumber n) = (n, None)
   \<and> (NewFromString dec s = Some parsed \<longrightarrow> ToXNumber dec (XText s) = (parsed, None))
   \<and> (NewFromString dec s = None \<longrightarrow>
        ToXNumber dec (XText s) = (Zero dec, Some (UnableToConvertToNumber (XText s))))
   \<and> ToXNumber dec (XError e) = (Zero dec, Some e)
   \<and> ((\<forall>n. x \<noteq> XNumber n) \<and> (\<forall>s. x \<noteq> XText s) \<and> (\<forall>e. x \<noteq> XError e) \<longrightarrow>
        ToXNumber dec x = (Zero dec, Some (UnableToConvertToNumber x)))
   \<and> (snd (ToXNumber dec x) \<noteq> None \<longrightarrow> fst (ToXNumber dec x) = Zero dec)"
  by (cases x) (auto simp: ToXNumber_def XNumberZero_def split: option.splits)

theorem ToXNumber_cases_witness:
  "ToXNumber wholeNumbers (XNumber 5) = (5, None)
   \<and> ToXNumber wholeNumbers (XText ''42'') = (42, None)
   \<and> ToXNumber wholeNumbers (XText ''abc'') = (0, Some (UnableToConvertToNumber (XText ''abc'')))
   \<and> ToXNumber wholeNumbers (XError (XErrorMessage ''boom'')) = (0, Some (XErrorMessage ''boom''))
   \<and> ToXNumber wholeNumbers (XBoolean True) = (0, Some (UnableToConvertToNumber (XBoolean True)))"
proof -
  have p: "NewFromString wholeNumbers ''42'' = Some 42"
    by (simp add: wholeNumbers_def parseInt_def isDigit_def digitVal_def)
  have q: "NewFromString wholeNumbers ''abc'' = None"
    by (simp add: wholeNumbers_def parseInt_def isDigit_def)
  have z: "Zero wholeNumbers = 0" by (simp add: wholeNumbers_def)
  show ?thesis
    using ToXNumber_cases [of wholeNumbers 5 "''42''" 42 "XErrorMessage ''boom''" "XBoolean True"]
      ToXNumber_cases [of wholeNumbers 5 "''abc''" 42 "XErrorMessage ''boom''" "XBoolean True"]
      p q z
    by simp
qed

text \<open>
  \<open>ToInteger\<close> in terms of what \<open>IntPart\<close> returns: it delegates to \<open>ToXNumber\<close> and hands
  its error on; otherwise it fails with the range error exactly when the 64-bit integer
  returned by \<open>IntPart\<close> lies outside [-2^31, 2^31 - 1], and returns that integer when it
  lies inside.
\<close>

theorem ToInteger_range:
  "(ToXNumber dec x = (number, Some err) \<longrightarrow> ToInteger dec x = (0, Some err))
   \<and> (ToXNumber dec x = (number, None) \<longrightarrow>
        (snd (ToInteger dec x) = Some (NumberOutOfRange (XNumber number))
           \<longleftrightarrow> sint (IntPart dec number) < - (2 ^ 31) \<or> 2 ^ 31 - 1 < sint (IntPart dec number))
        \<and> (- (2 ^ 31) \<le> sint (IntPart dec number) \<and> sint (IntPart dec number) \<le> 2 ^ 31 - 1 \<longrightarrow>
              ToInteger dec x = (sint (IntPart dec number), None))
        \<and> (sint (IntPart dec number) < - (2 ^ 31) \<or> 2 ^ 31 - 1 < sint (IntPart dec number) \<longrightarrow>
              ToInteger dec x = (0, Some (NumberOutOfRange (XNumber number)))))"
  by (auto simp: ToInteger_def Let_def MinInt32_def MaxInt32_def)

theorem ToInteger_range_witness:
  "ToInteger wholeNumbers (XText ''12345678901'')
     = (0, Some (NumberOutOfRange (XNumber 12345678901)))
   \<and> ToInteger wholeNumbers (XText ''-2147483648'') = (- 2147483648, None)
   \<and> ToInteger wholeNumbers (XText ''2147483648'')
     = (0, Some (NumberOutOfRange (XNumber 2147483648)))
   \<and> ToInteger wholeNumbers (XText ''abc'') = (0, Some (UnableToConvertToNumber (XText ''abc'')))"
proof -
  have a: "ToXNumber wholeNumbers (XText ''12345678901'') = (12345678901, None)"
    by (simp add: ToXNumber_def wholeNumbers_def parseInt_def isDigit_def digitVal_def)
  have b: "ToXNumber wholeNumbers (XText ''-2147483648'') = (- 2147483648, None)"
    by (simp add: ToXNumber_def wholeNumbers_def parseInt_def isDigit_def digitVal_def)
  have c: "ToXNumber wholeNumbers (XText ''2147483648'') = (2147483648, None)"
    by (simp add: ToXNumber_def wholeNumbers_def parseInt_def isDigit_def digitVal_def)
  have d: "ToXNumber wholeNumbers (XText ''abc'')
             = (0, Some (UnableToConvertToNumber (XText ''abc'')))"
    by (simp add: ToXNumber_def wholeNumbers_def parseInt_def isDigit_def XNumberZero_def)
  have ia: "sint (IntPart wholeNumbers 12345678901) = 12345678901"
    by (simp add: wholeNumbers_def)
  have ib: "sint (IntPart wholeNumbers (- 2147483648)) = - 2147483648"
    by (simp add: wholeNumbers_def)
  have ic: "sint (IntPart wholeNumbers 2147483648) = 2147483648"
    by (simp add: wholeNumbers_def)
  show ?thesis
    using ToInteger_range [of wholeNumbers "XText ''12345678901''" 12345678901]
      ToInteger_range [of wholeNumbers "XText ''-2147483648''" "- 2147483648"]
      ToInteger_range [of wholeNumbers "XText ''2147483648''" 2147483648]
      ToInteger_range [of wholeNumbers "XText ''abc''" 0 "UnableToConvertToNumber (XText ''abc'')"]
      a b c d ia ib ic
    by simp
qed

text \<open>
  For whole numbers that fit a 64-bit signed integer, \<open>IntPart\<close> is the number itself, and
  \<open>ToInteger\<close> fails exactly when the number lies outside [-2^31, 2^31 - 1].
\<close>

lemma sint_whole: "- (2 ^ 63) \<le> n \<Longrightarrow> n < 2 ^ 63 \<Longrightarrow> sint (word_of_int n :: 64 word) = n"
  by (simp add: sint_sbintrunc' signed_take_bit_int_eq_self)

lemma ToInteger_whole_in_int64:
  assumes "- (2 ^ 63) \<le> n" and "n < 2 ^ 63"
  shows "ToInteger wholeNumbers (XNumber n) =
           (if - (2 ^ 31) \<le> n \<and> n \<le> 2 ^ 31 - 1 then (n, None)
            else (0, Some (NumberOutOfRange (XNumber n))))"
  using sint_whole [OF assms]
  by (auto simp: ToInteger_def ToXNumber_def wholeNumbers_def Let_def MinInt32_def MaxInt32_def)

text \<open>
  Claim C6. \<open>ToInteger\<close> is claimed to fail with a range error exactly when the integer
  part of the number lies outside [-2^31, 2^31 - 1]. \<open>IntPart\<close> returns an \<open>int64\<close>, the low
  64 bits of the integer part, and the range check is made on that: the text
  \<open>18446744073709551621\<close> is the number 2^64 + 5, whose integer part is far outside the
  range, and \<open>ToInteger\<close> returns 5 with no error.
\<close>

theorem ToInteger_beyond_int64:
  "ToXNumber wholeNumbers (XText ''18446744073709551621'') = (18446744073709551621, None)
   \<and> ToInteger wholeNumbers (XText ''18446744073709551621'') = (5, None)"
  by (simp add: ToInteger_def ToXNumber_def wholeNumbers_def parseInt_def isDigit_def digitVal_def
      Let_def MinInt32_def MaxInt32_def)

section \<open>Dict rendering\<close>

lemma foldl_snoc_map: "foldl (\<lambda>acc k. acc @ [f k]) a ks = a @ map f ks"
  by (induction ks arbitrary: a) simp_all

lemma xdict_lookup_cong: "map_of d1 = map_of d2 \<Longrightarrow> xdict_lookup d1 = xdict_lookup d2"
  by (simp add: xdict_lookup_def fun_eq_iff)

lemma xdict_pair_cong: "map_of d1 = map_of d2 \<Longrightarrow> xdict_pair T E d1 = xdict_pair T E d2"
  using xdict_lookup_cong [of d1 d2] by (simp add: xdict_pair_def fun_eq_iff)

lemma sort_keys_eq:
  assumes "distinct (xdict_Keys d)"
  shows "sort (xdict_Keys d) = sorted_list_of_set (dom (map_of d))"
proof -
  have "sorted_list_of_set (set (map fst d)) = sort (remdups (map fst d))"
    by (rule sorted_list_of_set_sort_remdups)
  then show ?thesis
    using assms by (simp add: xdict_Keys_def dom_map_of_conv_image_fst distinct_remdups_id)
qed

text \<open>
  Claim C7. The text of a dict is built from its keys in ascending lexicographic order:
  it is \<open>{\<close>, the entries \<open>k: v\<close> of the sorted keys joined by \<open>, \<close>, and \<open>}\<close>. So two
  dicts with the same keys and values render to the same text, in whatever order their
  entries are held.
\<close>

theorem xdict_ToXText_sorted:
  assumes "distinct (xdict_Keys d1)" and "distinct (xdict_Keys d2)" and "map_of d1 = map_of d2"
  shows "xdict_ToXText T E d1 = xdict_ToXText T E d2
       \<and> xdict_ToXText T E d1 =
           ''{'' @ Join (map (xdict_pair T E d1) (sorted_list_of_set (set (xdict_Keys d1)))) '', ''
             @ ''}''
       \<and> sorted (sorted_list_of_set (set (xdict_Keys d1)))"
proof -
  have r: "xdict_ToXText T E d =
           ''{'' @ Join (map (xdict_pair T E d) (sorted_list_of_set (dom (map_of d)))) '', '' @ ''}''"
    if "distinct (xdict_Keys d)" for d :: "(string \<times> 'a XValue) list"
    using that by (simp add: xdict_ToXText_def Let_def foldl_snoc_map sort_keys_eq)
  have k: "dom (map_of d1) = set (xdict_Keys d1)"
    by (simp add: dom_map_of_conv_image_fst xdict_Keys_def)
  show ?thesis
    using r [OF assms(1)] r [OF assms(2)] assms(3) k
    by (simp add: xdict_pair_cong [OF assms(3)])
qed

theorem xdict_ToXText_sorted_witness:
  "xdict_ToXText (simple_ToXText wholeNumbers) (\<lambda>e. ''error'') [(''b'', XNumber 1), (''a'', XNumber 2)]
     = ''{a: 2, b: 1}''
   \<and> xdict_ToXText (simple_ToXText wholeNumbers) (\<lambda>e. ''error'') [(''a'', XNumber 2), (''b'', XNumber 1)]
     = ''{a: 2, b: 1}''"
proof -
  have d: "distinct (xdict_Keys [(''b'', XNumber (1::int)), (''a'', XNumber 2)])"
          "distinct (xdict_Keys [(''a'', XNumber (2::int)), (''b'', XNumber 1)])"
    by (simp_all add: xdict_Keys_def)
  have m: "map_of [(''b'', XNumber (1::int)), (''a'', XNumber 2)]
             = map_of [(''a'', XNumber 2), (''b'', XNumber 1)]"
    by (auto simp: fun_eq_iff)
  have e: "xdict_ToXText (simple_ToXText wholeNumbers) (\<lambda>e. ''error'')
             [(''a'', XNumber 2), (''b'', XNumber 1)] = ''{a: 2, b: 1}''"
    by (simp add: xdict_ToXText_def xdict_Keys_def xdict_pair_def xdict_lookup_def Join_def
        simple_ToXText_def XNumber_Render_def wholeNumbers_def showInt_def showNat.simps)
  show ?thesis
    using xdict_ToXText_sorted [OF d m, of "simple_ToXText wholeNumbers" "\<lambda>e. ''error''"] e
    by simp
qed

section \<open>Splitting a path\<close>

lemma pop_until_special:
  assumes "\<forall>c \<in> set seg. \<not> special c" and "special c" and "seg \<noteq> [] \<or> c \<noteq> CHR ''[''"
  shows "popNextVariable (seg @ c # r) =
           (Trim seg [CHR 0x22], if c = CHR ''['' then c # r else r)"
proof -
  have tw: "takeWhile (\<lambda>c. \<not> special c) (seg @ c # r) = seg"
    using assms by (simp add: takeWhile_append2)
  have hd: "seg @ c # r = [] \<or> hd (seg @ c # r) \<noteq> CHR ''[''"
  proof (cases seg)
    case Nil
    then show ?thesis using assms(3) by simp
  next
    case (Cons a as)
    then have "\<not> special a" using assms(1) by simp
    then show ?thesis using Cons by (auto simp: special_def)
  qed
  show ?thesis
    by (simp add: popNextVariable_plain [OF hd] tw Let_def nth_append)
qed

lemma pop_bracket_until_special:
  assumes "\<forall>c \<in> set seg. \<not> special c" and "special c"
  shows "popNextVariable (CHR ''['' # seg @ c # r) =
           (Trim seg [CHR 0x22], if c = CHR ''['' then c # r else r)"
proof -
  have tw: "takeWhile (\<lambda>c. \<not> special c) (seg @ c # r) = seg"
    using assms by (simp add: takeWhile_append2)
  show ?thesis by (simp add: popNextVariable_bracket tw Let_def nth_append)
qed

lemma pop_no_special:
  assumes "\<forall>c \<in> set seg. \<not> special c"
  shows "popNextVariable seg = (seg, [])"
    and "popNextVariable (CHR ''['' # seg) = (CHR ''['' # seg, [])"
proof -
  have tw: "takeWhile (\<lambda>c. \<not> special c) seg = seg"
    using assms by simp
  have hd: "seg = [] \<or> hd seg \<noteq> CHR ''[''"
    using assms by (cases seg) (auto simp: special_def)
  show "popNextVariable seg = (seg, [])"
    by (simp add: popNextVariable_plain [OF hd] tw Let_def)
  show "popNextVariable (CHR ''['' # seg) = (CHR ''['' # seg, [])"
    by (simp add: popNextVariable_bracket tw Let_def)
qed

lemma Trim_quoted: "Trim (CHR 0x22 # s @ [CHR 0x22]) [CHR 0x22] = Trim s [CHR 0x22]"
proof (cases "\<forall>c \<in> set s. c = CHR 0x22")
  case True
  have a: "dropWhile (\<lambda>c. c = CHR 0x22) s = []"
    using True by simp
  have b: "dropWhile (\<lambda>c. c = CHR 0x22) (s @ [CHR 0x22]) = []"
    using True by simp
  show ?thesis by (simp add: Trim_def a b)
next
  case False
  then obtain x where x: "x \<in> set s" "x \<noteq> CHR 0x22" by blast
  have a: "dropWhile (\<lambda>c. c = CHR 0x22) (s @ [CHR 0x22])
               = dropWhile (\<lambda>c. c = CHR 0x22) s @ [CHR 0x22]"
    using x by (rule dropWhile_append1)
  show ?thesis by (simp add: Trim_def a)
qed

lemma Trim_id:
  assumes "s = [] \<or> (hd s \<noteq> CHR 0x22 \<and> last s \<noteq> CHR 0x22)"
  shows "Trim s [CHR 0x22] = s"
proof (cases s rule: rev_cases)
  case Nil
  then show ?thesis by (simp add: Trim_def)
next
  case (snoc bs l)
  with assms have h: "hd (bs @ [l]) \<noteq> CHR 0x22" "l \<noteq> CHR 0x22" by auto
  have f: "dropWhile (\<lambda>c. c = CHR 0x22) (bs @ [l]) = bs @ [l]"
    using h by (cases bs) simp_all
  show ?thesis using h(2) by (simp add: Trim_def snoc f)
qed

text \<open>
  Claim C4, as stated, has a bracketed quoted segment returned whole with the characters
  \<open>.\<close>, \<open>[\<close> and \<open>]\<close> inside the quotes kept. The function does not look at quotes while
  it scans: the quoted key \<open>a.b\<close> is cut at the dot.
\<close>

theorem popNextVariable_quoted_dot_counterexample:
  \<open>popNextVariable ''["a.b"]'' = (''a'', ''b"]'')
   \<and> popNextVariable ''["a.b"]'' \<noteq> (''a.b'', '''')\<close>
  by (simp add: popNextVariable_def slice_def Trim_def)

text \<open>
  Claim C4, amended. After an optional opening bracket at the start of the path, the
  segment ends at the first \<open>.\<close>, \<open>[\<close> or \<open>]\<close>, inside quotes or not; the double quotes
  at both ends of the segment are removed; the rest starts after a \<open>.\<close> or \<open>]\<close> and at
  a \<open>[\<close>. A path with none of these characters is returned whole, with an empty rest.
  So a bracketed quoted segment whose key has none of \<open>.\<close>, \<open>[\<close>, \<open>]\<close> is returned as
  one segment, its other characters (spaces among them) kept as they are.
\<close>

theorem popNextVariable_segments:
  assumes "\<forall>c \<in> set seg. \<not> special c"
  shows "popNextVariable seg = (seg, [])
       \<and> popNextVariable (CHR ''['' # seg) = (CHR ''['' # seg, [])
       \<and> popNextVariable (seg @ CHR ''.'' # r) = (Trim seg [CHR 0x22], r)
       \<and> popNextVariable (seg @ CHR '']'' # r) = (Trim seg [CHR 0x22], r)
       \<and> (seg \<noteq> [] \<longrightarrow> popNextVariable (seg @ CHR ''['' # r) = (Trim seg [CHR 0x22], CHR ''['' # r))
       \<and> popNextVariable (CHR ''['' # seg @ CHR '']'' # r) = (Trim seg [CHR 0x22], r)
       \<and> popNextVariable (CHR ''['' # seg @ CHR ''.'' # r) = (Trim seg [CHR 0x22], r)
       \<and> popNextVariable (CHR ''['' # seg @ CHR ''['' # r) = (Trim seg [CHR 0x22], CHR ''['' # r)
       \<and> popNextVariable (CHR ''['' # CHR 0x22 # seg @ CHR 0x22 # CHR '']'' # r)
           = (Trim seg [CHR 0x22], r)
       \<and> (seg = [] \<or> (hd seg \<noteq> CHR 0x22 \<and> last seg \<noteq> CHR 0x22) \<longrightarrow> Trim seg [CHR 0x22] = seg)"
proof -
  have q: "\<forall>c \<in> set (CHR 0x22 # seg @ [CHR 0x22]). \<not> special c"
    using assms by (simp add: special_def)
  have "popNextVariable (CHR ''['' # (CHR 0x22 # seg @ [CHR 0x22]) @ CHR '']'' # r)
          = (Trim (CHR 0x22 # seg @ [CHR 0x22]) [CHR 0x22], r)"
    using pop_bracket_until_special [OF q, of "CHR '']''" r] by (simp add: special_def)
  then have quoted: "popNextVariable (CHR ''['' # CHR 0x22 # seg @ CHR 0x22 # CHR '']'' # r)
          = (Trim seg [CHR 0x22], r)"
    by (simp add: Trim_quoted)
  show ?thesis
    using pop_no_special [OF assms]
      pop_until_special [OF assms, of "CHR ''.''" r]
      pop_until_special [OF assms, of "CHR '']''" r]
      pop_until_special [OF assms, of "CHR ''[''" r]
      pop_bracket_until_special [OF assms, of "CHR '']''" r]
      pop_bracket_until_special [OF assms, of "CHR ''.''" r]
      pop_bracket_until_special [OF assms, of "CHR ''[''" r]
      quoted Trim_id [of seg]
    by (simp add: special_def)
qed

theorem popNextVariable_segments_witness:
  \<open>popNextVariable ''["my key"].bar'' = (''my key'', ''.bar'')
   \<and> popNextVariable ''my key.bar'' = (''my key'', ''bar'')
   \<and> popNextVariable ''my key[0]'' = (''my key'', ''[0]'')
   \<and> popNextVariable ''my key'' = (''my key'', '''')\<close>
proof -
  have s: "\<forall>c \<in> set ''my key''. \<not> special c"
    by (simp add: special_def)
  have t: "Trim ''my key'' [CHR 0x22] = ''my key''"
    by (simp add: Trim_def)
  show ?thesis
    using popNextVariable_segments [OF s, of "''.bar''"]
      popNextVariable_segments [OF s, of "''bar''"]
      popNextVariable_segments [OF s, of "''0]''"] t
    by simp
qed

section \<open>The resolver\<close>

lemma asIndexable_SomeD:
  assumes "asIndexable v = Some ix"
  shows "Length ix = int (length (elements v))"
    and "0 \<le> j \<Longrightarrow> j < Length ix \<Longrightarrow> Index ix j = Inr (elements v ! nat j)"
    and "\<not> (0 \<le> j \<and> j < Length ix) \<Longrightarrow> Index ix j = Inl (RuntimeIndexOutOfRange j (Length ix))"
    and "\<not> IsNil v"
  using assms
  by (auto simp: asIndexable_def elements_def xarray_Length_def xarray_Index_def
      URNList_Length_def URNList_Index_def IsNil_def split: ival.splits)

lemma resolveStep_index_in_range:
  assumes "Atoi key = Some i" and "asIndexable v = Some ix"
    and "- Length ix \<le> i" and "i < Length ix"
  shows "resolveStep vs v key = Inr (elements v ! nat (if i < 0 then i + Length ix else i))"
proof -
  let ?j = "if i < 0 then i + Length ix else i"
  have "0 \<le> ?j" "?j < Length ix" using assms(3,4) by auto
  then have "Index ix ?j = Inr (elements v ! nat ?j)"
    by (rule asIndexable_SomeD(2) [OF assms(2)])
  then show ?thesis
    using assms asIndexable_SomeD(4) [OF assms(2)] by (simp add: resolveStep_def)
qed

lemma resolveStep_index_out_of_range:
  assumes "Atoi key = Some i" and "asIndexable v = Some ix"
    and "\<not> (- Length ix \<le> i \<and> i < Length ix)"
  shows "resolveStep vs v key = Inl (Returned (IError (IndexOutOfRange i (Length ix))))"
  using assms asIndexable_SomeD(4) [OF assms(2)] by (auto simp: resolveStep_def)

lemma resolveStep_by_key:
  assumes "\<not> IsNil v" and "Atoi key = None \<or> asIndexable v = None"
  shows "resolveStep vs v key =
       (case asResolvable vs v of
          Some resolve \<Rightarrow>
            (case resolve key of IError e \<Rightarrow> Inl (Returned (IError e)) | w \<Rightarrow> Inr w)
        | None \<Rightarrow> Inl (Returned (IError (CantResolveType key (TypeOf v)))))"
  using assms by (auto simp: resolveStep_def split: option.splits)

lemma resolveStep_stop_is_error:
  assumes "resolveStep vs v key = Inl out"
  shows "\<exists>e. out = Returned (IError e)"
proof (cases "IsNil v")
  case True
  then show ?thesis using assms by (auto simp: resolveStep_def)
next
  case notnil: False
  show ?thesis
  proof (cases "\<exists>i ix. Atoi key = Some i \<and> asIndexable v = Some ix")
    case True
    then obtain i ix where a: "Atoi key = Some i" "asIndexable v = Some ix" by blast
    show ?thesis
    proof (cases "- Length ix \<le> i \<and> i < Length ix")
      case True
      then show ?thesis using resolveStep_index_in_range [OF a, of vs] assms by simp
    next
      case False
      then show ?thesis using resolveStep_index_out_of_range [OF a, of vs] assms by auto
    qed
  next
    case False
    then have "Atoi key = None \<or> asIndexable v = None" by auto
    then show ?thesis
      using assms resolveStep_by_key [OF notnil, of key vs]
      by (auto split: option.splits ival.splits)
  qed
qed

lemma checkReturn_panic_iff:
  "checkReturn w k = Panicked p \<longleftrightarrow>
     p = UnsupportedType k (TypeOf w) \<and> snd (snd (ToXAtom w)) \<noteq> None \<and> \<not> isAtomizable w"
  by (auto simp: checkReturn_def split: prod.splits option.splits)

lemma resolveLoop_stop:
  assumes "rest \<noteq> []" and "resolveStep vs v (fst (popNextVariable rest)) = Inl out"
  shows "resolveLoop vs v key rest = out"
  using assms by (subst resolveLoop.simps) simp

lemma resolveLoop_continue:
  assumes "rest \<noteq> []" and "resolveStep vs v (fst (popNextVariable rest)) = Inr w"
  shows "resolveLoop vs v key rest
           = resolveLoop vs w (fst (popNextVariable rest)) (snd (popNextVariable rest))"
  using assms by (subst resolveLoop.simps) simp

lemma resolveLoop_panic:
  "resolveLoop vs v key rest = Panicked p \<Longrightarrow> \<exists>w k. checkReturn w k = Panicked p"
proof (induction vs v key rest rule: resolveLoop.induct)
  case (1 vs v key rest)
  show ?case
  proof (cases "rest = []")
    case True
    then show ?thesis using "1.prems" by (subst (asm) resolveLoop.simps) auto
  next
    case False
    show ?thesis
    proof (cases "resolveStep vs v (fst (popNextVariable rest))")
      case (Inl out)
      then have "out = Panicked p"
        using resolveLoop_stop [OF False Inl] "1.prems" by simp
      then show ?thesis using resolveStep_stop_is_error [OF Inl] by auto
    next
      case (Inr w)
      then have "resolveLoop vs w (fst (popNextVariable rest)) (snd (popNextVariable rest)) = Panicked p"
        using resolveLoop_continue [OF False Inr] "1.prems" by simp
      then show ?thesis using "1.IH" [OF False Inr] by simp
    qed
  qed
qed

lemma ResolveVariable_panic:
  assumes "ResolveVariable vs root path = Panicked p"
  shows "\<exists>w k. checkReturn w k = Panicked p"
proof -
  have "\<exists>key rest. resolveLoop vs root key rest = Panicked p"
    using assms by (auto simp: ResolveVariable_def Let_def split: ival.splits if_splits)
  then show ?thesis using resolveLoop_panic by blast
qed







text \<open>
  Claim C3. At a step of the resolution whose segment parses as the integer \<open>i\<close>, on an
  indexable value with \<open>n\<close> elements: when \<open>-n \<le> i < n\<close> the step yields the element
  at \<open>i\<close> (at \<open>i + n\<close> for a negative \<open>i\<close>) and the resolution goes on from it; otherwise
  the resolver returns the bounds error as a value.
\<close>

theorem resolveLoop_index:
  assumes "rest \<noteq> []" and "popNextVariable rest = (seg, rest')"
    and "Atoi seg = Some i" and "asIndexable variable = Some indexable"
    and "n = Length indexable"
  shows "n = int (length (elements variable))
       \<and> (- n \<le> i \<and> i < n \<longrightarrow>
            resolveStep vs variable seg = Inr (elements variable ! nat (if i < 0 then i + n else i))
            \<and> resolveLoop vs variable key rest
                = resolveLoop vs (elements variable ! nat (if i < 0 then i + n else i)) seg rest')
       \<and> (\<not> (- n \<le> i \<and> i < n) \<longrightarrow>
            resolveStep vs variable seg = Inl (Returned (IError (IndexOutOfRange i n)))
            \<and> resolveLoop vs variable key rest = Returned (IError (IndexOutOfRange i n)))"
proof -
  have s: "fst (popNextVariable rest) = seg" "snd (popNextVariable rest) = rest'"
    using assms(2) by simp_all
  have n: "n = int (length (elements variable))"
    using asIndexable_SomeD(1) [OF assms(4)] assms(5) by simp
  have a: "resolveStep vs variable seg = Inr (elements variable ! nat (if i < 0 then i + n else i))
         \<and> resolveLoop vs variable key rest
             = resolveLoop vs (elements variable ! nat (if i < 0 then i + n else i)) seg rest'"
    if "- n \<le> i \<and> i < n"
  proof -
    have st: "resolveStep vs variable seg
                = Inr (elements variable ! nat (if i < 0 then i + n else i))"
      using resolveStep_index_in_range [OF assms(3,4), of vs] that assms(5) by simp
    then show ?thesis
      using resolveLoop_continue [OF assms(1), of vs variable _ key] s by simp
  qed
  have b: "resolveStep vs variable seg = Inl (Returned (IError (IndexOutOfRange i n)))
         \<and> resolveLoop vs variable key rest = Returned (IError (IndexOutOfRange i n))"
    if "\<not> (- n \<le> i \<and> i < n)"
  proof -
    have st: "resolveStep vs variable seg = Inl (Returned (IError (IndexOutOfRange i n)))"
      using resolveStep_index_out_of_range [OF assms(3,4), of vs] that assms(5) by simp
    then show ?thesis
      using resolveLoop_stop [OF assms(1), of vs variable _ key] s by simp
  qed
  show ?thesis using n a b by blast
qed

theorem resolveLoop_index_witness:
  "ResolveVariable (\<lambda>s. s = ''tel'') (IArray [IString ''a'', IString ''b'']) ''-1''
     = Returned (IString ''b'')
   \<and> ResolveVariable (\<lambda>s. s = ''tel'') (IArray [IString ''a'', IString ''b'']) ''2''
     = Returned (IError (IndexOutOfRange 2 2))
   \<and> ResolveVariable (\<lambda>s. s = ''tel'') (IArray [IString ''a'', IString ''b'']) ''-3''
     = Returned (IError (IndexOutOfRange (- 3) 2))"
proof -
  let ?arr = "IArray [IString ''a'', IString ''b'']"
  let ?ix = "\<lparr>Length = xarray_Length [IString ''a'', IString ''b''],
              Index = xarray_Index [IString ''a'', IString ''b'']\<rparr>"
  have ix: "asIndexable ?arr = Some ?ix" by (simp add: asIndexable_def)
  have n: "(2::int) = Length ?ix" by (simp add: xarray_Length_def)
  have p1: "popNextVariable ''-1'' = (''-1'', [])"
    and p2: "popNextVariable ''2'' = (''2'', [])"
    and p3: "popNextVariable ''-3'' = (''-3'', [])"
    by (simp_all add: popNextVariable_def)
  have a1: "Atoi ''-1'' = Some (- 1)" and a2: "Atoi ''2'' = Some 2" and a3: "Atoi ''-3'' = Some (- 3)"
    by (simp_all add: Atoi_def parseInt_def isDigit_def digitVal_def)
  have e: "elements ?arr = [IString ''a'', IString ''b'']" by (simp add: elements_def)
  have c: "resolveLoop (\<lambda>s. s = ''tel'') (IString ''b'') ''-1'' [] = Returned (IString ''b'')"
    by (simp add: resolveLoop.simps checkReturn_def ToXAtom_def)
  have r1: "ResolveVariable (\<lambda>s. s = ''tel'') ?arr ''-1''
              = resolveLoop (\<lambda>s. s = ''tel'') ?arr ''-1'' ''-1''"
    and r2: "ResolveVariable (\<lambda>s. s = ''tel'') ?arr ''2''
              = resolveLoop (\<lambda>s. s = ''tel'') ?arr ''2'' ''2''"
    and r3: "ResolveVariable (\<lambda>s. s = ''tel'') ?arr ''-3''
              = resolveLoop (\<lambda>s. s = ''tel'') ?arr ''-3'' ''-3''"
    by (simp_all add: ResolveVariable_def Let_def)
  have ne: "''-1'' \<noteq> []" "''2'' \<noteq> []" "''-3'' \<noteq> []" by simp_all
  have t1: "resolveLoop (\<lambda>s. s = ''tel'') ?arr ''-1'' ''-1''
              = resolveLoop (\<lambda>s. s = ''tel'') (IString ''b'') ''-1'' []"
    using resolveLoop_index [OF ne(1) p1 a1 ix n, of "\<lambda>s. s = ''tel''" "''-1''"]
    by (simp add: e)
  have t2: "resolveLoop (\<lambda>s. s = ''tel'') ?arr ''2'' ''2''
              = Returned (IError (IndexOutOfRange 2 2))"
    using resolveLoop_index [OF ne(2) p2 a2 ix n, of "\<lambda>s. s = ''tel''" "''2''"]
    by simp
  have t3: "resolveLoop (\<lambda>s. s = ''tel'') ?arr ''-3'' ''-3''
              = Returned (IError (IndexOutOfRange (- 3) 2))"
    using resolveLoop_index [OF ne(3) p3 a3 ix n, of "\<lambda>s. s = ''tel''" "''-3''"]
    by simp
  show ?thesis
    unfolding r1 r2 r3 t1 t2 t3 c by simp
qed


text \<open>
  Claim C10. \<open>Index\<close> of an array and of a URN list returns the element at \<open>i\<close> when
  \<open>0 \<le> i < Length()\<close> and panics with the runtime's index error otherwise, having no
  check of its own. No step of the resolver and no call of \<open>ResolveVariable\<close> ends in
  that panic: the index handed to \<open>Index\<close> has passed the guard and has been
  normalised.
\<close>

theorem Index_guarded:
  "(0 \<le> i \<and> i < xarray_Length elems \<longrightarrow> xarray_Index elems i = Inr (elems ! nat i))
   \<and> (0 \<le> i \<and> i < URNList_Length l \<longrightarrow> URNList_Index l i = Inr (IContactURN (l ! nat i)))
   \<and> (\<not> (0 \<le> i \<and> i < xarray_Length elems) \<longrightarrow>
        xarray_Index elems i = Inl (RuntimeIndexOutOfRange i (xarray_Length elems)))
   \<and> (\<not> (0 \<le> i \<and> i < URNList_Length l) \<longrightarrow>
        URNList_Index l i = Inl (RuntimeIndexOutOfRange i (URNList_Length l)))
   \<and> (Atoi key = Some j \<and> asIndexable variable = Some ix \<and> - Length ix \<le> j \<and> j < Length ix \<longrightarrow>
        0 \<le> (if j < 0 then j + Length ix else j) \<and> (if j < 0 then j + Length ix else j) < Length ix
        \<and> resolveStep vs variable key = Inr (elements variable ! nat (if j < 0 then j + Length ix else j)))
   \<and> resolveStep vs variable key \<noteq> Inl (Panicked p)
   \<and> ResolveVariable vs root path \<noteq> Panicked (RuntimeIndexOutOfRange a b)"
proof -
  have i1: "0 \<le> i \<and> i < xarray_Length elems \<longrightarrow> xarray_Index elems i = Inr (elems ! nat i)"
    by (simp add: xarray_Index_def xarray_Length_def)
  have i2: "0 \<le> i \<and> i < URNList_Length l \<longrightarrow> URNList_Index l i = Inr (IContactURN (l ! nat i))"
    by (simp add: URNList_Index_def URNList_Length_def)
  have i3: "\<not> (0 \<le> i \<and> i < xarray_Length elems) \<longrightarrow>
      xarray_Index elems i = Inl (RuntimeIndexOutOfRange i (xarray_Length elems))"
    by (simp add: xarray_Index_def xarray_Length_def)
  have i4: "\<not> (0 \<le> i \<and> i < URNList_Length l) \<longrightarrow>
      URNList_Index l i = Inl (RuntimeIndexOutOfRange i (URNList_Length l))"
    by (simp add: URNList_Index_def URNList_Length_def)
  have guard: "Atoi key = Some j \<and> asIndexable variable = Some ix
      \<and> - Length ix \<le> j \<and> j < Length ix \<longrightarrow>
      0 \<le> (if j < 0 then j + Length ix else j) \<and> (if j < 0 then j + Length ix else j) < Length ix
      \<and> resolveStep vs variable key = Inr (elements variable ! nat (if j < 0 then j + Length ix else j))"
    using resolveStep_index_in_range [of key j variable ix vs] by auto
  have step: "resolveStep vs variable key \<noteq> Inl (Panicked p)"
    using resolveStep_stop_is_error [of vs variable key "Panicked p"] by auto
  have top: "ResolveVariable vs root path \<noteq> Panicked (RuntimeIndexOutOfRange a b)"
    using ResolveVariable_panic [of vs root path "RuntimeIndexOutOfRange a b"]
      checkReturn_panic_iff by auto
  show ?thesis
    by (intro conjI i1 i2 i3 i4 guard step top)
qed


theorem Index_guarded_witness:
  "xarray_Index [IString ''a'', IString ''b''] 1 = Inr (IString ''b'')
   \<and> xarray_Index [IString ''a'', IString ''b''] 2 = Inl (RuntimeIndexOutOfRange 2 2)
   \<and> URNList_Index [ContactURN (URN ''tel'' ''+1'' [] []) INil] 0
       = Inr (IContactURN (ContactURN (URN ''tel'' ''+1'' [] []) INil))
   \<and> URNList_Index [ContactURN (URN ''tel'' ''+1'' [] []) INil] (- 1)
       = Inl (RuntimeIndexOutOfRange (- 1) 1)
   \<and> resolveStep (\<lambda>s. s = ''tel'') (IArray [IString ''a'', IString ''b'']) ''-1''
       = Inr (IString ''b'')"
proof -
  note th = Index_guarded
  let ?xs = "[IString ''a'', IString ''b'']"
  let ?l = "[ContactURN (URN ''tel'' ''+1'' [] []) INil]"
  let ?ix = "\<lparr>Length = xarray_Length ?xs, Index = xarray_Index ?xs\<rparr>"
  have a: "xarray_Index ?xs 1 = Inr (IString ''b'')"
    using th [where elems = ?xs and i = 1, THEN conjunct1]
    by (simp add: xarray_Length_def)
  have b: "xarray_Index ?xs 2 = Inl (RuntimeIndexOutOfRange 2 2)"
    using th [where elems = ?xs and i = 2, THEN conjunct2, THEN conjunct2, THEN conjunct1]
    by (simp add: xarray_Length_def)
  have c: "URNList_Index ?l 0 = Inr (IContactURN (ContactURN (URN ''tel'' ''+1'' [] []) INil))"
    using th [where l = ?l and i = 0, THEN conjunct2, THEN conjunct1]
    by (simp add: URNList_Length_def)
  have d: "URNList_Index ?l (- 1) = Inl (RuntimeIndexOutOfRange (- 1) 1)"
    using th [where l = ?l and i = "- 1", THEN conjunct2, THEN conjunct2, THEN conjunct2,
        THEN conjunct1]
    by (simp add: URNList_Length_def)
  have at: "Atoi ''-1'' = Some (- 1)"
    by (simp add: Atoi_def parseInt_def isDigit_def digitVal_def)
  have ix: "asIndexable (IArray ?xs) = Some ?ix" by (simp add: asIndexable_def)
  have e: "resolveStep (\<lambda>s. s = ''tel'') (IArray ?xs) ''-1'' = Inr (IString ''b'')"
    using th [where key = "''-1''" and j = "- 1" and variable = "IArray ?xs" and ix = ?ix
        and vs = "\<lambda>s. s = ''tel''",
        THEN conjunct2, THEN conjunct2, THEN conjunct2, THEN conjunct2, THEN conjunct1] at ix
    by (simp add: xarray_Length_def elements_def)
  show ?thesis
    unfolding a b c d e by simp
qed

end
